theory Spec2Isabelle
  imports Complex_Main
begin

section \<open>The arithmetic of \<open>double_t\<close>\<close>

text \<open>
  Every number in \<open>stdp_connection.h\<close> is a \<open>double_t\<close>, a C++ \<open>double\<close>. The
  embedding keeps the special values of that type and computes exactly on the finite
  ones: a finite value is a real number or the negative zero, and next to them stand the
  two infinities and the not-a-number. Rounding, overflow and underflow are not part of
  the embedding; division by zero, the poles of \<open>std::pow\<close>, the sign of a zero
  result and the comparisons that are false on a NaN are. A statement that a computed
  weight equals the value of a real formula would hold of this arithmetic and not of the
  machine's; the theorems on the claims say what holds of both: which operations are
  applied to which operands and in which order, which branch is taken, and what the
  order of the values and the special values force.
\<close>

datatype double = Finite real | NegZero | PosInf | NegInf | NaN

fun val :: "double \<Rightarrow> real" where
  "val (Finite r) = r"
| "val NegZero = 0"
| "val PosInf = 0"
| "val NegInf = 0"
| "val NaN = 0"

fun is_finite :: "double \<Rightarrow> bool" where
  "is_finite (Finite r) = True"
| "is_finite NegZero = True"
| "is_finite PosInf = False"
| "is_finite NegInf = False"
| "is_finite NaN = False"

fun is_inf :: "double \<Rightarrow> bool" where
  "is_inf PosInf = True"
| "is_inf NegInf = True"
| "is_inf (Finite r) = False"
| "is_inf NegZero = False"
| "is_inf NaN = False"

fun is_zero :: "double \<Rightarrow> bool" where
  "is_zero (Finite r) = (r = 0)"
| "is_zero NegZero = True"
| "is_zero PosInf = False"
| "is_zero NegInf = False"
| "is_zero NaN = False"

fun signbit :: "double \<Rightarrow> bool" where
  "signbit (Finite r) = (r < 0)"
| "signbit NegZero = True"
| "signbit PosInf = False"
| "signbit NegInf = True"
| "signbit NaN = False"

definition signed_zero :: "bool \<Rightarrow> double" where
  "signed_zero neg = (if neg then NegZero else Finite 0)"

definition signed_inf :: "bool \<Rightarrow> double" where
  "signed_inf neg = (if neg then NegInf else PosInf)"

fun d_neg :: "double \<Rightarrow> double" where
  "d_neg (Finite r) = (if r = 0 then NegZero else Finite (- r))"
| "d_neg NegZero = Finite 0"
| "d_neg PosInf = NegInf"
| "d_neg NegInf = PosInf"
| "d_neg NaN = NaN"

text \<open>\<open>x + y\<close>: opposite infinities give NaN; a zero sum is \<open>+0\<close> unless both
  operands are \<open>-0\<close>.\<close>

definition d_add :: "double \<Rightarrow> double \<Rightarrow> double" where
  "d_add x y =
     (if x = NaN \<or> y = NaN then NaN
      else if is_inf x then (if is_inf y \<and> x \<noteq> y then NaN else x)
      else if is_inf y then y
      else if x = NegZero \<and> y = NegZero then NegZero
      else Finite (val x + val y))"

definition d_sub :: "double \<Rightarrow> double \<Rightarrow> double" where
  "d_sub x y = d_add x (d_neg y)"

text \<open>\<open>x * y\<close>: infinity times zero is NaN; the sign of an infinite or zero product is
  the exclusive or of the operands' signs.\<close>

definition d_mul :: "double \<Rightarrow> double \<Rightarrow> double" where
  "d_mul x y =
     (if x = NaN \<or> y = NaN then NaN
      else if is_inf x \<or> is_inf y then
        (if is_zero x \<or> is_zero y then NaN else signed_inf (signbit x \<noteq> signbit y))
      else if val x * val y = 0 then signed_zero (signbit x \<noteq> signbit y)
      else Finite (val x * val y))"

text \<open>\<open>x / y\<close>: \<open>0/0\<close> and \<open>inf/inf\<close> are NaN; a nonzero value over a zero is an
  infinity, a finite value over an infinity a zero, both signed by the operands.\<close>

definition d_div :: "double \<Rightarrow> double \<Rightarrow> double" where
  "d_div x y =
     (if x = NaN \<or> y = NaN then NaN
      else if is_inf x then (if is_inf y then NaN else signed_inf (signbit x \<noteq> signbit y))
      else if is_inf y then signed_zero (signbit x \<noteq> signbit y)
      else if is_zero y then
        (if is_zero x then NaN else signed_inf (signbit x \<noteq> signbit y))
      else if val x / val y = 0 then signed_zero (signbit x \<noteq> signbit y)
      else Finite (val x / val y))"

text \<open>\<open>std::exp\<close>.\<close>

fun d_exp :: "double \<Rightarrow> double" where
  "d_exp (Finite r) = Finite (exp r)"
| "d_exp NegZero = Finite 1"
| "d_exp PosInf = PosInf"
| "d_exp NegInf = Finite 0"
| "d_exp NaN = NaN"

text \<open>The comparisons \<open><\<close>, \<open>>\<close> and \<open>==\<close>: false as soon as an operand is NaN; the two
  zeros are equal. \<open>d_le\<close> and \<open>d_ge\<close> are \<open><=\<close> and \<open>>=\<close>, which the source does not
  use and the properties below do.\<close>

definition d_lt :: "double \<Rightarrow> double \<Rightarrow> bool" where
  "d_lt x y =
     (if x = NaN \<or> y = NaN then False
      else if x = PosInf \<or> y = NegInf then False
      else if x = NegInf \<or> y = PosInf then True
      else val x < val y)"

definition d_gt :: "double \<Rightarrow> double \<Rightarrow> bool" where
  "d_gt x y = d_lt y x"

definition d_eq :: "double \<Rightarrow> double \<Rightarrow> bool" where
  "d_eq x y =
     (if x = NaN \<or> y = NaN then False
      else if is_inf x \<or> is_inf y then x = y
      else val x = val y)"

definition d_le :: "double \<Rightarrow> double \<Rightarrow> bool" where
  "d_le x y = (d_lt x y \<or> d_eq x y)"

definition d_ge :: "double \<Rightarrow> double \<Rightarrow> bool" where
  "d_ge x y = d_le y x"

text \<open>
  \<open>std::pow\<close>, with the special cases of the C standard (Annex F): \<open>pow(x, 0)\<close>,
  for either zero, and \<open>pow(+1, y)\<close> are 1 whatever the other argument; a zero base
  has a pole at negative exponents; a negative finite base has a value only at integer
  exponents.
\<close>

definition is_int :: "real \<Rightarrow> bool" where
  "is_int b = (of_int \<lfloor>b\<rfloor> = b)"

definition odd_int :: "real \<Rightarrow> bool" where
  "odd_int b = (is_int b \<and> odd \<lfloor>b\<rfloor>)"

definition pow_finite :: "double \<Rightarrow> real \<Rightarrow> double" where
  "pow_finite x b =
     (case x of
        PosInf \<Rightarrow> (if b < 0 then Finite 0 else PosInf)
      | NegInf \<Rightarrow>
          (if b < 0 then signed_zero (odd_int b) else signed_inf (odd_int b))
      | NegZero \<Rightarrow>
          (if b < 0 then signed_inf (odd_int b) else signed_zero (odd_int b))
      | Finite a \<Rightarrow>
          (if a = 0 then (if b < 0 then PosInf else Finite 0)
           else if 0 < a then Finite (a powr b)
           else if is_int b then Finite ((if odd \<lfloor>b\<rfloor> then - 1 else 1) * (\<bar>a\<bar> powr b))
           else NaN)
      | NaN \<Rightarrow> NaN)"

definition d_pow :: "double \<Rightarrow> double \<Rightarrow> double" where
  "d_pow x y =
     (if is_zero y then Finite 1
      else if x = Finite 1 then Finite 1
      else if x = NaN \<or> y = NaN then NaN
      else if is_inf y then
        (if x = Finite (- 1) then Finite 1
         else if is_finite x \<and> \<bar>val x\<bar> < 1 then (if y = PosInf then Finite 0 else PosInf)
         else (if y = PosInf then PosInf else Finite 0))
      else pow_finite x (val y))"

section \<open>The collaborators of the connection\<close>

text \<open>
  A record of the post-synaptic neuron's spike history. The source reads the member
  \<open>t_\<close> only, here \<open>hist_t\<close>; the counter is the one the history provider keeps
  for pruning.
\<close>

record histentry =
  hist_t :: double
  access_counter :: nat

text \<open>
  The target neuron, as far as \<open>send\<close> uses it. \<open>get_history t1 t2\<close> is the range
  \<open>[start, finish)\<close> that \<open>Node::get_history(t1, t2, &start, &finish)\<close> hands back, as
  the finite sequence of the records met when walking from \<open>start\<close> to \<open>finish\<close>;
  \<open>get_K_value t\<close> is the neuron's trace at time \<open>t\<close>. Both belong to the neuron's
  class, which is not part of this file, so they are parameters here. A value of this
  type is the neuron as one call of \<open>send\<close> finds it; what the query does to the
  access counters stays with the neuron.
\<close>

record Node =
  get_history :: "double \<Rightarrow> double \<Rightarrow> histentry list"
  get_K_value :: "double \<Rightarrow> double"

type_synonym thread = int

record Event =
  stamp_ms :: double
  receiver :: "Node option"
  ev_weight :: double
  ev_delay :: int
  ev_rport :: int

text \<open>
  The dictionary that \<open>get_status\<close> fills and \<open>set_status\<close> reads: names mapped to
  data, a datum being a \<open>double_t\<close> or a \<open>long_t\<close>, the two types the source stores.
\<close>

datatype Datum = DoubleDatum double | LongDatum int

type_synonym DictionaryDatum = "string \<rightharpoonup> Datum"

datatype error = TypeMismatch | BaseError

text \<open>
  Modelled from the spec: the helper \<open>def\<close> of the dictionary utilities is declared
  outside this file. The export "reports" each key with the field's value, so \<open>def\<close>
  stores the datum under the name, replacing an older entry.
\<close>

definition def_double :: "DictionaryDatum \<Rightarrow> string \<Rightarrow> double \<Rightarrow> DictionaryDatum" where
  "def_double d n x = d(n \<mapsto> DoubleDatum x)"

definition def_long :: "DictionaryDatum \<Rightarrow> string \<Rightarrow> int \<Rightarrow> DictionaryDatum" where
  "def_long d n x = d(n \<mapsto> LongDatum x)"

text \<open>
  Modelled from the spec: the helper \<open>updateValue\<close> of the dictionary utilities is
  declared outside this file. A recognised key that is present "sets the corresponding
  parameter", and configuration "overwrites any subset", so an absent key leaves the
  field as it is. The result is the new content of the referenced field. An entry that
  does not hold a \<open>double_t\<close> cannot be read as one: the call fails with
  \<open>TypeMismatch\<close> and the field keeps its value.
\<close>

definition updateValue_double :: "DictionaryDatum \<Rightarrow> string \<Rightarrow> double \<Rightarrow> error + double" where
  "updateValue_double d n x =
     (case d n of
        None \<Rightarrow> Inr x
      | Some (DoubleDatum v) \<Rightarrow> Inr v
      | Some (LongDatum i) \<Rightarrow> Inl TypeMismatch)"

text \<open>
  Modelled from the spec: the names \<open>names::weight\<close> and \<open>names::size_of\<close> are
  constants declared outside this file; the spec lists the keys as \<open>weight\<close> and
  \<open>size_of\<close>.
\<close>

definition names_weight :: string where
  "names_weight = ''weight''"

definition names_size_of :: string where
  "names_size_of = ''size_of''"

text \<open>
  The base class \<open>Connection< targetidentifierT >\<close> is declared in \<open>connection.h\<close>,
  which is not part of this file. Its state is a value of a type \<open>'b\<close>, and the members
  the source calls are the fields of this record: the four accessors, and the base
  class's share of \<open>get_status\<close> and \<open>set_status\<close>. The latter returns the base
  state it leaves behind and the exception it raised, if any.
\<close>

record ('b, 'm) ConnectionBase =
  get_target :: "'b \<Rightarrow> thread \<Rightarrow> Node"
  get_delay :: "'b \<Rightarrow> double"
  get_delay_steps :: "'b \<Rightarrow> int"
  get_rport :: "'b \<Rightarrow> int"
  base_get_status :: "'b \<Rightarrow> DictionaryDatum \<Rightarrow> DictionaryDatum"
  base_set_status :: "DictionaryDatum \<Rightarrow> 'm \<Rightarrow> 'b \<Rightarrow> 'b \<times> error option"

section \<open>The connection\<close>

text \<open>The data members, named as in the source without the closing underscore, which
  a name cannot end with here; likewise \<open>facilitate\<close> and \<open>depress\<close> below.\<close>

record 'b STDPConnection =
  base :: 'b
  weight :: double
  tau_plus :: double
  lambda :: double
  alpha :: double
  mu_plus :: double
  mu_minus :: double
  Wmax :: double
  Kplus :: double

text \<open>The default constructor.\<close>

definition STDPConnection_default :: "'b \<Rightarrow> 'b STDPConnection" where
  "STDPConnection_default b =
     \<lparr> base = b,
       weight = Finite 1,
       tau_plus = Finite 20,
       lambda = Finite (1 / 100),
       alpha = Finite 1,
       mu_plus = Finite 1,
       mu_minus = Finite 1,
       Wmax = Finite 100,
       Kplus = Finite 0 \<rparr>"

definition set_weight :: "double \<Rightarrow> 'b STDPConnection \<Rightarrow> 'b STDPConnection" where
  "set_weight w c = c\<lparr>weight := w\<rparr>"

definition facilitate :: "'b STDPConnection \<Rightarrow> double \<Rightarrow> double \<Rightarrow> double" where
  "facilitate c w kplus =
     (let norm_w =
        d_add (d_div w (Wmax c))
          (d_mul (d_mul (lambda c) (d_pow (d_sub (Finite 1) (d_div w (Wmax c))) (mu_plus c)))
             kplus)
      in if d_lt norm_w (Finite 1) then d_mul norm_w (Wmax c) else Wmax c)"

definition depress :: "'b STDPConnection \<Rightarrow> double \<Rightarrow> double \<Rightarrow> double" where
  "depress c w kminus =
     (let norm_w =
        d_sub (d_div w (Wmax c))
          (d_mul (d_mul (d_mul (alpha c) (lambda c)) (d_pow (d_div w (Wmax c)) (mu_minus c)))
             kminus)
      in if d_gt norm_w (Finite 0) then d_mul norm_w (Wmax c) else Finite 0)"

text \<open>
  The \<open>while ( start != finish )\<close> loop of \<open>send\<close>, over the records from \<open>start\<close> to
  \<open>finish\<close>. Each round reads the record under \<open>start\<close>, advances \<open>start\<close>, and
  either goes on to the next round (\<open>continue\<close>) or facilitates first.
\<close>

fun facilitation_loop ::
  "double \<Rightarrow> double \<Rightarrow> histentry list \<Rightarrow> 'b STDPConnection \<Rightarrow> 'b STDPConnection" where
  "facilitation_loop t_lastspike dendritic_delay [] c = c"
| "facilitation_loop t_lastspike dendritic_delay (start # rest) c =
     (let minus_dt = d_sub t_lastspike (d_add (hist_t start) dendritic_delay) in
      if d_eq minus_dt (Finite 0) then facilitation_loop t_lastspike dendritic_delay rest c
      else facilitation_loop t_lastspike dendritic_delay rest
             (c\<lparr>weight :=
                  facilitate c (weight c)
                    (d_mul (Kplus c) (d_exp (d_div minus_dt (tau_plus c))))\<rparr>))"

text \<open>
  \<open>send\<close> returns the connection it leaves behind and the event it delivers with
  \<open>e()\<close>. The last parameter of the source, the common properties, has no name there
  and is not used.
\<close>

definition send ::
  "('b, 'm) ConnectionBase \<Rightarrow> Event \<Rightarrow> thread \<Rightarrow> double \<Rightarrow> 'b STDPConnection
     \<Rightarrow> 'b STDPConnection \<times> Event" where
  "send B e t t_lastspike c =
     (let t_spike = stamp_ms e;
          target = get_target B (base c) t;
          dendritic_delay = get_delay B (base c);
          window = get_history target (d_sub t_lastspike dendritic_delay)
                     (d_sub t_spike dendritic_delay);
          c1 = facilitation_loop t_lastspike dendritic_delay window c;
          c2 = c1\<lparr>weight :=
                   depress c1 (weight c1) (get_K_value target (d_sub t_spike dendritic_delay))\<rparr>;
          e' = e\<lparr>receiver := Some target,
                 ev_weight := weight c2,
                 ev_delay := get_delay_steps B (base c2),
                 ev_rport := get_rport B (base c2)\<rparr>;
          c3 = c2\<lparr>Kplus :=
                   d_add (d_mul (Kplus c2)
                            (d_exp (d_div (d_sub t_lastspike t_spike) (tau_plus c2))))
                     (Finite 1)\<rparr>
      in (c3, e'))"

text \<open>\<open>get_status\<close> is a \<open>const\<close> member: it returns the dictionary and has no
  connection to return. \<open>sizeof_this\<close> stands for \<open>sizeof( *this )\<close>.\<close>

definition get_status ::
  "('b, 'm) ConnectionBase \<Rightarrow> int \<Rightarrow> 'b STDPConnection \<Rightarrow> DictionaryDatum \<Rightarrow> DictionaryDatum" where
  "get_status B sizeof_this c d =
     (let d = base_get_status B (base c) d;
          d = def_double d names_weight (weight c);
          d = def_double d ''tau_plus'' (tau_plus c);
          d = def_double d ''lambda'' (lambda c);
          d = def_double d ''alpha'' (alpha c);
          d = def_double d ''mu_plus'' (mu_plus c);
          d = def_double d ''mu_minus'' (mu_minus c);
          d = def_double d ''Wmax'' (Wmax c)
      in def_long d names_size_of sizeof_this)"

text \<open>
  \<open>set_status\<close> returns the connection it leaves behind and the exception that ended
  it, if any: a field written before the exception stays written.
\<close>

definition set_status ::
  "('b, 'm) ConnectionBase \<Rightarrow> DictionaryDatum \<Rightarrow> 'm \<Rightarrow> 'b STDPConnection
     \<Rightarrow> 'b STDPConnection \<times> error option" where
  "set_status B d cm c =
     (case base_set_status B d cm (base c) of
        (b, Some ex) \<Rightarrow> (c\<lparr>base := b\<rparr>, Some ex)
      | (b, None) \<Rightarrow>
     (let c = c\<lparr>base := b\<rparr> in
      case updateValue_double d names_weight (weight c) of
        Inl ex \<Rightarrow> (c, Some ex)
      | Inr v \<Rightarrow>
     (let c = c\<lparr>weight := v\<rparr> in
      case updateValue_double d ''tau_plus'' (tau_plus c) of
        Inl ex \<Rightarrow> (c, Some ex)
      | Inr v \<Rightarrow>
     (let c = c\<lparr>tau_plus := v\<rparr> in
      case updateValue_double d ''lambda'' (lambda c) of
        Inl ex \<Rightarrow> (c, Some ex)
      | Inr v \<Rightarrow>
     (let c = c\<lparr>lambda := v\<rparr> in
      case updateValue_double d ''alpha'' (alpha c) of
        Inl ex \<Rightarrow> (c, Some ex)
      | Inr v \<Rightarrow>
     (let c = c\<lparr>alpha := v\<rparr> in
      case updateValue_double d ''mu_plus'' (mu_plus c) of
        Inl ex \<Rightarrow> (c, Some ex)
      | Inr v \<Rightarrow>
     (let c = c\<lparr>mu_plus := v\<rparr> in
      case updateValue_double d ''mu_minus'' (mu_minus c) of
        Inl ex \<Rightarrow> (c, Some ex)
      | Inr v \<Rightarrow>
     (let c = c\<lparr>mu_minus := v\<rparr> in
      case updateValue_double d ''Wmax'' (Wmax c) of
        Inl ex \<Rightarrow> (c, Some ex)
      | Inr v \<Rightarrow> (c\<lparr>Wmax := v\<rparr>, None)))))))))"

section \<open>Sequences of calls\<close>

text \<open>The three members that change a connection, as the calls a client can make.\<close>

datatype 'm call =
  SetStatus DictionaryDatum 'm
| SetWeight double
| Send Event thread double

fun perform :: "('b, 'm) ConnectionBase \<Rightarrow> 'b STDPConnection \<Rightarrow> 'm call \<Rightarrow> 'b STDPConnection" where
  "perform B c (SetStatus d cm) = fst (set_status B d cm c)"
| "perform B c (SetWeight w) = set_weight w c"
| "perform B c (Send e t t_lastspike) = fst (send B e t t_lastspike c)"

definition run :: "('b, 'm) ConnectionBase \<Rightarrow> 'b STDPConnection \<Rightarrow> 'm call list \<Rightarrow> 'b STDPConnection" where
  "run B c calls = foldl (perform B) c calls"

section \<open>The vocabulary of the properties\<close>

text \<open>A value is not negative when \<open>x < 0\<close> is false: a finite value from zero on,
  the positive infinity, or NaN.\<close>

definition not_neg :: "double \<Rightarrow> bool" where
  "not_neg x = (\<not> d_lt x (Finite 0))"

text \<open>The parameters the bound on the weight asks for: real numbers with \<open>Wmax > 0\<close>,
  \<open>lambda > 0\<close>, \<open>alpha \<ge> 0\<close>, \<open>mu_plus \<ge> 0\<close> and \<open>mu_minus \<ge> 0\<close>.\<close>

definition valid_parameters :: "'b STDPConnection \<Rightarrow> bool" where
  "valid_parameters c =
     (is_finite (Wmax c) \<and> 0 < val (Wmax c) \<and>
      is_finite (lambda c) \<and> 0 < val (lambda c) \<and>
      is_finite (alpha c) \<and> 0 \<le> val (alpha c) \<and>
      is_finite (mu_plus c) \<and> 0 \<le> val (mu_plus c) \<and>
      is_finite (mu_minus c) \<and> 0 \<le> val (mu_minus c))"

definition weight_in_range :: "'b STDPConnection \<Rightarrow> bool" where
  "weight_in_range c = (d_le (Finite 0) (weight c) \<and> d_le (weight c) (Wmax c))"

text \<open>The time shift of a history record against the last pre-synaptic spike, and the
  argument \<open>send\<close> facilitates with at that record.\<close>

definition minus_dt_of :: "double \<Rightarrow> double \<Rightarrow> histentry \<Rightarrow> double" where
  "minus_dt_of t_lastspike dendritic_delay h =
     d_sub t_lastspike (d_add (hist_t h) dendritic_delay)"

definition coincident :: "double \<Rightarrow> double \<Rightarrow> histentry \<Rightarrow> bool" where
  "coincident t_lastspike dendritic_delay h =
     d_eq (minus_dt_of t_lastspike dendritic_delay h) (Finite 0)"

definition kplus_at :: "'b STDPConnection \<Rightarrow> double \<Rightarrow> double \<Rightarrow> histentry \<Rightarrow> double" where
  "kplus_at c t_lastspike dendritic_delay h =
     d_mul (Kplus c) (d_exp (d_div (minus_dt_of t_lastspike dendritic_delay h) (tau_plus c)))"

text \<open>
  The two rules in the words of the spec (section 4.2):
  \<open>facilitate(w, k) = let nw = w/Wmax + lambda * (1 - w/Wmax)^mu_plus * k in
  (nw < 1.0) ? nw * Wmax : Wmax\<close> and
  \<open>depress(w, k) = let nw = w/Wmax - alpha * lambda * (w/Wmax)^mu_minus * k in
  (nw > 0.0) ? nw * Wmax : 0.0\<close>, as functions of the parameters and the two arguments.
\<close>

definition facilitate_spec :: "double \<Rightarrow> double \<Rightarrow> double \<Rightarrow> double \<Rightarrow> double \<Rightarrow> double" where
  "facilitate_spec Wmax_p lambda_p mu_plus_p w k =
     (let nw = d_add (d_div w Wmax_p)
                 (d_mul (d_mul lambda_p (d_pow (d_sub (Finite 1) (d_div w Wmax_p)) mu_plus_p)) k)
      in if d_lt nw (Finite 1) then d_mul nw Wmax_p else Wmax_p)"

definition depress_spec ::
  "double \<Rightarrow> double \<Rightarrow> double \<Rightarrow> double \<Rightarrow> double \<Rightarrow> double \<Rightarrow> double" where
  "depress_spec Wmax_p alpha_p lambda_p mu_minus_p w k =
     (let nw = d_sub (d_div w Wmax_p)
                 (d_mul (d_mul (d_mul alpha_p lambda_p) (d_pow (d_div w Wmax_p) mu_minus_p)) k)
      in if d_gt nw (Finite 0) then d_mul nw Wmax_p else Finite 0)"

text \<open>A send is regular when the time constant is a real number above zero, the two
  time stamps are real numbers and the spike is not earlier than the last one
  (\<open>t_lastspike \<le> t_spike\<close>); a sequence of calls is regular from a connection when
  each of its sends is, in the state it is made in.\<close>

fun regular_call :: "'b STDPConnection \<Rightarrow> 'm call \<Rightarrow> bool" where
  "regular_call c (Send e t t_lastspike) =
     (is_finite (tau_plus c) \<and> 0 < val (tau_plus c) \<and>
      is_finite (stamp_ms e) \<and> is_finite t_lastspike \<and> val t_lastspike \<le> val (stamp_ms e))"
| "regular_call c (SetStatus d cm) = True"
| "regular_call c (SetWeight w) = True"

fun regular_calls :: "('b, 'm) ConnectionBase \<Rightarrow> 'b STDPConnection \<Rightarrow> 'm call list \<Rightarrow> bool" where
  "regular_calls B c [] = True"
| "regular_calls B c (x # xs) = (regular_call c x \<and> regular_calls B (perform B c x) xs)"

fun is_send :: "'m call \<Rightarrow> bool" where
  "is_send (Send e t t_lastspike) = True"
| "is_send (SetStatus d cm) = False"
| "is_send (SetWeight w) = False"

section \<open>Concrete collaborators\<close>

text \<open>
  Modelled from the spec: the history provider of the target neuron is not part of this
  file. Its windowed query returns, in the order of the neuron's record, the entries
  whose time stamp lies in the half-open interval from \<open>t1\<close> (excluded) to \<open>t2\<close>
  (included).
\<close>

definition history_window :: "histentry list \<Rightarrow> double \<Rightarrow> double \<Rightarrow> histentry list" where
  "history_window hist t1 t2 = filter (\<lambda>h. d_lt t1 (hist_t h) \<and> d_le (hist_t h) t2) hist"

definition archiving_node :: "histentry list \<Rightarrow> double \<Rightarrow> Node" where
  "archiving_node hist k = \<lparr> get_history = history_window hist, get_K_value = (\<lambda>t. k) \<rparr>"

text \<open>A base connection that holds its target and its delay, exports nothing and accepts
  every dictionary.\<close>

definition plain_base :: "(Node \<times> double, unit) ConnectionBase" where
  "plain_base =
     \<lparr> get_target = (\<lambda>b t. fst b),
       get_delay = (\<lambda>b. snd b),
       get_delay_steps = (\<lambda>b. 10),
       get_rport = (\<lambda>b. 0),
       base_get_status = (\<lambda>b d. d),
       base_set_status = (\<lambda>d cm b. (b, None)) \<rparr>"

definition spike_at :: "double \<Rightarrow> Event" where
  "spike_at ts = \<lparr> stamp_ms = ts, receiver = None, ev_weight = Finite 1, ev_delay = 1, ev_rport = 0 \<rparr>"

text \<open>The connection of the end-to-end scenario of the spec before its second delivery:
  weight 50, trace 1, delay 1, one post-synaptic spike at 25 and a target trace of 0.2.\<close>

definition scenario_node :: Node where
  "scenario_node = archiving_node [\<lparr> hist_t = Finite 25, access_counter = 0 \<rparr>] (Finite (1 / 5))"

definition scenario_connection :: "(Node \<times> double) STDPConnection" where
  "scenario_connection =
     (STDPConnection_default (scenario_node, Finite 1))\<lparr>weight := Finite 50, Kplus := Finite 1\<rparr>"

text \<open>The same connection before its first delivery: weight 50, trace 0, no
  post-synaptic spike on record and a target trace of 0.\<close>

definition first_delivery :: "(Node \<times> double) STDPConnection" where
  "first_delivery =
     (STDPConnection_default (archiving_node [] (Finite 0), Finite 1))\<lparr>weight := Finite 50\<rparr>"

text \<open>A history provider that also hands back a record on the lower end of the window,
  and a connection to it with a record exactly at \<open>t_lastspike - delay\<close> for
  \<open>t_lastspike = 10\<close>: the test the spec asks for on coincident records.\<close>

definition boundary_node :: "histentry list \<Rightarrow> double \<Rightarrow> Node" where
  "boundary_node hist k =
     \<lparr> get_history = (\<lambda>t1 t2. filter (\<lambda>h. d_le t1 (hist_t h) \<and> d_le (hist_t h) t2) hist),
       get_K_value = (\<lambda>t. k) \<rparr>"

definition boundary_connection :: "(Node \<times> double) STDPConnection" where
  "boundary_connection =
     (STDPConnection_default
        (boundary_node [\<lparr> hist_t = Finite 9, access_counter = 0 \<rparr>,
                        \<lparr> hist_t = Finite 25, access_counter = 0 \<rparr>] (Finite (1 / 5)),
         Finite 1))\<lparr>weight := Finite 50, Kplus := Finite 1\<rparr>"

text \<open>A connection to such a provider whose only record stands exactly at
  \<open>t_lastspike - delay\<close>, with a target trace of 0.\<close>

definition skipped_only_connection :: "(Node \<times> double) STDPConnection" where
  "skipped_only_connection =
     (STDPConnection_default
        (boundary_node [\<lparr> hist_t = Finite 9, access_counter = 0 \<rparr>] (Finite 0),
         Finite 1))\<lparr>weight := Finite 50, Kplus := Finite 1\<rparr>"

text \<open>The base state of a connection to a target without history and without trace, at
  delay 1.\<close>

definition quiet_base :: "Node \<times> double" where
  "quiet_base = (archiving_node [] (Finite 0), Finite 1)"

section \<open>Facts about the arithmetic\<close>

lemmas arith_defs =
  d_add_def d_sub_def d_mul_def d_div_def d_lt_def d_gt_def d_eq_def d_le_def d_ge_def
  signed_zero_def signed_inf_def

lemmas scenario_defs =
  scenario_connection_def scenario_node_def archiving_node_def history_window_def
  plain_base_def spike_at_def STDPConnection_default_def

text \<open>On finite operands the operations are those of the real numbers.\<close>

lemma fin_neg: "is_finite x \<Longrightarrow> is_finite (d_neg x) \<and> val (d_neg x) = - val x"
  by (cases x) auto

lemma fin_add:
  "is_finite x \<Longrightarrow> is_finite y \<Longrightarrow> is_finite (d_add x y) \<and> val (d_add x y) = val x + val y"
  by (cases x; cases y) (auto simp: d_add_def)

lemma fin_sub:
  "is_finite x \<Longrightarrow> is_finite y \<Longrightarrow> is_finite (d_sub x y) \<and> val (d_sub x y) = val x - val y"
  by (simp add: d_sub_def fin_add fin_neg)

lemma fin_mul:
  "is_finite x \<Longrightarrow> is_finite y \<Longrightarrow> is_finite (d_mul x y) \<and> val (d_mul x y) = val x * val y"
  by (cases x; cases y) (auto simp: d_mul_def signed_zero_def)

lemma fin_div:
  "is_finite x \<Longrightarrow> is_finite y \<Longrightarrow> val y \<noteq> 0 \<Longrightarrow>
   is_finite (d_div x y) \<and> val (d_div x y) = val x / val y"
  by (cases x; cases y) (auto simp: d_div_def signed_zero_def)

lemma fin_exp: "is_finite x \<Longrightarrow> is_finite (d_exp x) \<and> val (d_exp x) = exp (val x)"
  by (cases x) auto

lemma lt_fin: "is_finite x \<Longrightarrow> is_finite y \<Longrightarrow> d_lt x y = (val x < val y)"
  by (cases x; cases y) (auto simp: d_lt_def)

lemma eq_fin: "is_finite x \<Longrightarrow> is_finite y \<Longrightarrow> d_eq x y = (val x = val y)"
  by (cases x; cases y) (auto simp: d_eq_def)

lemma le_fin: "is_finite x \<Longrightarrow> is_finite y \<Longrightarrow> d_le x y = (val x \<le> val y)"
  by (auto simp: d_le_def lt_fin eq_fin)

lemma between_fin:
  "is_finite W \<Longrightarrow>
   (d_le (Finite 0) w \<and> d_le w W) = (is_finite w \<and> 0 \<le> val w \<and> val w \<le> val W)"
  by (cases w; cases W) (auto simp: d_le_def d_lt_def d_eq_def)

lemma pow_unit:
  "is_finite x \<Longrightarrow> 0 \<le> val x \<Longrightarrow> is_finite y \<Longrightarrow> 0 \<le> val y \<Longrightarrow>
   is_finite (d_pow x y) \<and> 0 \<le> val (d_pow x y)"
  by (cases x; cases y) (auto simp: d_pow_def pow_finite_def signed_zero_def)


text \<open>The values that are not negative are closed under the product, and every
  exponential is one of them.\<close>

lemma not_neg_iff: "not_neg x \<longleftrightarrow> (is_finite x \<and> 0 \<le> val x) \<or> x = PosInf \<or> x = NaN"
  by (cases x) (auto simp: not_neg_def d_lt_def)

lemma not_neg_exp: "not_neg (d_exp x)"
  by (cases x) (auto simp: not_neg_def d_lt_def)

lemma not_neg_mul: "not_neg x \<Longrightarrow> not_neg y \<Longrightarrow> not_neg (d_mul x y)"
  unfolding not_neg_iff
  by (cases x; cases y) (auto simp: d_mul_def signed_zero_def signed_inf_def split: if_splits)



lemma add_NaN [simp]: "d_add x NaN = NaN"
  by (simp add: d_add_def)

lemma sub_NaN [simp]: "d_sub x NaN = NaN"
  by (simp add: d_sub_def)

lemma lt_NaN [simp]: "\<not> d_lt NaN y" "\<not> d_gt NaN y"
  by (simp_all add: d_lt_def d_gt_def)

lemma not_neg_add_one: "not_neg x \<Longrightarrow> not_neg (d_add x (Finite 1))"
  unfolding not_neg_iff by (cases x) (auto simp: d_add_def)

section \<open>Facts about the update rule and the loop\<close>

lemma facilitate_range:
  assumes W: "is_finite (Wmax c)" "0 < val (Wmax c)"
    and l: "is_finite (lambda c)" "0 \<le> val (lambda c)"
    and m: "is_finite (mu_plus c)" "0 \<le> val (mu_plus c)"
    and w: "is_finite w" "0 \<le> val w" "val w \<le> val (Wmax c)"
    and k: "not_neg k"
  shows "is_finite (facilitate c w k) \<and> 0 \<le> val (facilitate c w k) \<and> val (facilitate c w k) \<le> val (Wmax c)"
proof -
  define x where "x = d_div w (Wmax c)"
  define p where "p = d_mul (lambda c) (d_pow (d_sub (Finite 1) x) (mu_plus c))"
  define nw where "nw = d_add x (d_mul p k)"
  have x: "is_finite x" "val x = val w / val (Wmax c)"
    using fin_div[of w "Wmax c"] W w by (simp_all add: x_def)
  have x01: "0 \<le> val x" "val x \<le> 1"
    using x W w by simp_all
  have b: "is_finite (d_sub (Finite 1) x)" "val (d_sub (Finite 1) x) = 1 - val x"
    using fin_sub[of "Finite 1" x] x by simp_all
  have pw: "is_finite (d_pow (d_sub (Finite 1) x) (mu_plus c))" "0 \<le> val (d_pow (d_sub (Finite 1) x) (mu_plus c))"
    using pow_unit[of "d_sub (Finite 1) x" "mu_plus c"] b x01 m by simp_all
  have p: "is_finite p" "0 \<le> val p"
    using fin_mul[of "lambda c" "d_pow (d_sub (Finite 1) x) (mu_plus c)"] l pw by (simp_all add: p_def)
  have "not_neg p" using p by (simp add: not_neg_iff)
  then have t: "not_neg (d_mul p k)" using k by (rule not_neg_mul)
  have fac: "facilitate c w k = (if d_lt nw (Finite 1) then d_mul nw (Wmax c) else Wmax c)"
    by (simp add: facilitate_def Let_def nw_def p_def x_def)
  show ?thesis
  proof (cases "d_lt nw (Finite 1)")
    case False
    then show ?thesis using fac W by simp
  next
    case True
    have tf: "is_finite (d_mul p k)"
    proof (rule ccontr)
      assume "\<not> is_finite (d_mul p k)"
      with t have "d_mul p k = PosInf \<or> d_mul p k = NaN" by (auto simp: not_neg_iff)
      then have "nw = PosInf \<or> nw = NaN" using x(1) by (cases x) (auto simp: nw_def d_add_def)
      with True show False by (auto simp: d_lt_def)
    qed
    then have t0: "0 \<le> val (d_mul p k)" using t by (auto simp: not_neg_iff)
    have nw: "is_finite nw" "val nw = val x + val (d_mul p k)"
      using fin_add[of x "d_mul p k"] x(1) tf by (simp_all add: nw_def)
    have lt1: "val nw < 1" using True nw(1) lt_fin[of nw "Finite 1"] by simp
    have r: "is_finite (d_mul nw (Wmax c))" "val (d_mul nw (Wmax c)) = val nw * val (Wmax c)"
      using fin_mul[of nw "Wmax c"] nw(1) W(1) by simp_all
    have "0 \<le> val nw" using nw(2) x01 t0 by simp
    then have "0 \<le> val nw * val (Wmax c)" using W(2) by simp
    moreover have "val nw * val (Wmax c) \<le> 1 * val (Wmax c)"
      using lt1 W(2) by (intro mult_right_mono) simp_all
    ultimately show ?thesis using fac True r by simp
  qed
qed

lemma depress_range:
  assumes W: "is_finite (Wmax c)" "0 < val (Wmax c)"
    and l: "is_finite (lambda c)" "0 \<le> val (lambda c)"
    and a: "is_finite (alpha c)" "0 \<le> val (alpha c)"
    and m: "is_finite (mu_minus c)" "0 \<le> val (mu_minus c)"
    and w: "is_finite w" "0 \<le> val w" "val w \<le> val (Wmax c)"
    and k: "not_neg k"
  shows "is_finite (depress c w k) \<and> 0 \<le> val (depress c w k) \<and> val (depress c w k) \<le> val (Wmax c)"
proof -
  define x where "x = d_div w (Wmax c)"
  define p where "p = d_mul (d_mul (alpha c) (lambda c)) (d_pow x (mu_minus c))"
  define nw where "nw = d_sub x (d_mul p k)"
  have x: "is_finite x" "val x = val w / val (Wmax c)"
    using fin_div[of w "Wmax c"] W w by (simp_all add: x_def)
  have x01: "0 \<le> val x" "val x \<le> 1"
    using x W w by simp_all
  have pw: "is_finite (d_pow x (mu_minus c))" "0 \<le> val (d_pow x (mu_minus c))"
    using pow_unit[of x "mu_minus c"] x(1) x01 m by simp_all
  have al: "is_finite (d_mul (alpha c) (lambda c))" "0 \<le> val (d_mul (alpha c) (lambda c))"
    using fin_mul[of "alpha c" "lambda c"] a l by simp_all
  have p: "is_finite p" "0 \<le> val p"
    using fin_mul[of "d_mul (alpha c) (lambda c)" "d_pow x (mu_minus c)"] al pw by (simp_all add: p_def)
  have "not_neg p" using p by (simp add: not_neg_iff)
  then have t: "not_neg (d_mul p k)" using k by (rule not_neg_mul)
  have dep: "depress c w k = (if d_gt nw (Finite 0) then d_mul nw (Wmax c) else Finite 0)"
    by (simp add: depress_def Let_def nw_def p_def x_def)
  show ?thesis
  proof (cases "d_gt nw (Finite 0)")
    case False
    then show ?thesis using dep W by simp
  next
    case True
    have tf: "is_finite (d_mul p k)"
    proof (rule ccontr)
      assume "\<not> is_finite (d_mul p k)"
      with t have "d_mul p k = PosInf \<or> d_mul p k = NaN" by (auto simp: not_neg_iff)
      then have "nw = NegInf \<or> nw = NaN" using x(1) by (cases x) (auto simp: nw_def d_sub_def d_add_def)
      with True show False by (auto simp: d_gt_def d_lt_def)
    qed
    then have t0: "0 \<le> val (d_mul p k)" using t by (auto simp: not_neg_iff)
    have nw: "is_finite nw" "val nw = val x - val (d_mul p k)"
      using fin_sub[of x "d_mul p k"] x(1) tf by (simp_all add: nw_def)
    have gt0: "0 < val nw" using True nw(1) lt_fin[of "Finite 0" nw] by (simp add: d_gt_def)
    have r: "is_finite (d_mul nw (Wmax c))" "val (d_mul nw (Wmax c)) = val nw * val (Wmax c)"
      using fin_mul[of nw "Wmax c"] nw(1) W(1) by simp_all
    have "val nw \<le> 1" using nw(2) x01 t0 by simp
    then have "val nw * val (Wmax c) \<le> 1 * val (Wmax c)"
      using W(2) by (intro mult_right_mono) simp_all
    moreover have "0 \<le> val nw * val (Wmax c)" using gt0 W(2) by simp
    ultimately show ?thesis using dep True r by simp
  qed
qed

lemma facilitate_weight_update [simp]: "facilitate (c\<lparr>weight := v\<rparr>) = facilitate c"
  by (rule ext)+ (simp add: facilitate_def Let_def)

lemma depress_weight_update [simp]: "depress (c\<lparr>weight := v\<rparr>) = depress c"
  by (rule ext)+ (simp add: depress_def Let_def)

lemma kplus_at_weight_update [simp]: "kplus_at (c\<lparr>weight := v\<rparr>) = kplus_at c"
  by (rule ext)+ (simp add: kplus_at_def)

lemma loop_changes_weight_only:
  "facilitation_loop tls d xs c = c\<lparr>weight := weight (facilitation_loop tls d xs c)\<rparr>"
proof (induction xs arbitrary: c)
  case Nil
  show ?case by simp
next
  case (Cons h xs)
  show ?case
  proof (cases "d_eq (d_sub tls (d_add (hist_t h) d)) (Finite 0)")
    case True
    then show ?thesis using Cons.IH[of c] by simp
  next
    case False
    define c' where "c' = c\<lparr>weight := facilitate c (weight c) (d_mul (Kplus c) (d_exp (d_div (d_sub tls (d_add (hist_t h) d)) (tau_plus c))))\<rparr>"
    have step: "facilitation_loop tls d (h # xs) c = facilitation_loop tls d xs c'"
      using False by (simp add: c'_def Let_def)
    have "facilitation_loop tls d xs c' = c'\<lparr>weight := weight (facilitation_loop tls d xs c')\<rparr>"
      by (rule Cons.IH)
    also have "\<dots> = c\<lparr>weight := weight (facilitation_loop tls d xs c')\<rparr>"
      by (simp add: c'_def)
    finally have eq: "facilitation_loop tls d xs c' = c\<lparr>weight := weight (facilitation_loop tls d xs c')\<rparr>" .
    show ?thesis unfolding step by (rule eq)
  qed
qed

lemma loop_weight_fold:
  "weight (facilitation_loop tls d xs c) =
   foldl (\<lambda>w h. facilitate c w (kplus_at c tls d h)) (weight c)
     (filter (\<lambda>h. \<not> coincident tls d h) xs)"
proof (induction xs arbitrary: c)
  case Nil
  show ?case by simp
next
  case (Cons h xs)
  show ?case
  proof (cases "coincident tls d h")
    case True
    then show ?thesis using Cons.IH[of c] by (simp add: coincident_def minus_dt_of_def)
  next
    case False
    then show ?thesis
      using Cons.IH[of "c\<lparr>weight := facilitate c (weight c) (kplus_at c tls d h)\<rparr>"]
      by (simp add: coincident_def minus_dt_of_def kplus_at_def Let_def)
  qed
qed

lemma fold_facilitate_range:
  assumes "is_finite (Wmax c)" "0 < val (Wmax c)" "is_finite (lambda c)" "0 \<le> val (lambda c)"
    "is_finite (mu_plus c)" "0 \<le> val (mu_plus c)" "not_neg (Kplus c)"
  shows "is_finite w \<and> 0 \<le> val w \<and> val w \<le> val (Wmax c) \<Longrightarrow>
    is_finite (foldl (\<lambda>w h. facilitate c w (kplus_at c tls d h)) w xs) \<and>
    0 \<le> val (foldl (\<lambda>w h. facilitate c w (kplus_at c tls d h)) w xs) \<and>
    val (foldl (\<lambda>w h. facilitate c w (kplus_at c tls d h)) w xs) \<le> val (Wmax c)"
proof (induction xs arbitrary: w)
  case Nil
  then show ?case by simp
next
  case (Cons h xs)
  have k: "not_neg (kplus_at c tls d h)"
    unfolding kplus_at_def using assms(7) not_neg_exp by (rule not_neg_mul)
  have "is_finite (facilitate c w (kplus_at c tls d h)) \<and>
        0 \<le> val (facilitate c w (kplus_at c tls d h)) \<and>
        val (facilitate c w (kplus_at c tls d h)) \<le> val (Wmax c)"
    using facilitate_range[of c w "kplus_at c tls d h"] assms(1-6) Cons.prems k by simp
  then show ?case using Cons.IH by simp
qed

lemma send_weight:
  "weight (fst (send B e t tls c)) =
   depress c
     (weight (facilitation_loop tls (get_delay B (base c))
        (get_history (get_target B (base c) t) (d_sub tls (get_delay B (base c)))
           (d_sub (stamp_ms e) (get_delay B (base c)))) c))
     (get_K_value (get_target B (base c) t) (d_sub (stamp_ms e) (get_delay B (base c))))"
proof -
  let ?l = "facilitation_loop tls (get_delay B (base c))
        (get_history (get_target B (base c) t) (d_sub tls (get_delay B (base c)))
           (d_sub (stamp_ms e) (get_delay B (base c)))) c"
  have "depress ?l = depress (c\<lparr>weight := weight ?l\<rparr>)"
    using loop_changes_weight_only[of tls "get_delay B (base c)" _ c] by simp
  then show ?thesis by (simp add: send_def Let_def)
qed

lemma send_keeps_parameters:
  "Wmax (fst (send B e t tls c)) = Wmax c \<and> lambda (fst (send B e t tls c)) = lambda c \<and>
   alpha (fst (send B e t tls c)) = alpha c \<and> mu_plus (fst (send B e t tls c)) = mu_plus c \<and>
   mu_minus (fst (send B e t tls c)) = mu_minus c \<and> tau_plus (fst (send B e t tls c)) = tau_plus c \<and>
   base (fst (send B e t tls c)) = base c"
proof -
  let ?l = "facilitation_loop tls (get_delay B (base c))
        (get_history (get_target B (base c) t) (d_sub tls (get_delay B (base c)))
           (d_sub (stamp_ms e) (get_delay B (base c)))) c"
  have l: "?l = c\<lparr>weight := weight ?l\<rparr>" by (rule loop_changes_weight_only)
  have "Wmax ?l = Wmax c" "lambda ?l = lambda c" "alpha ?l = alpha c" "mu_plus ?l = mu_plus c"
    "mu_minus ?l = mu_minus c" "tau_plus ?l = tau_plus c" "base ?l = base c"
    by (subst l, simp)+
  then show ?thesis by (simp add: send_def Let_def)
qed

lemma send_Kplus:
  "Kplus (fst (send B e t tls c)) =
   d_add (d_mul (Kplus c) (d_exp (d_div (d_sub tls (stamp_ms e)) (tau_plus c)))) (Finite 1)"
proof -
  let ?l = "facilitation_loop tls (get_delay B (base c))
        (get_history (get_target B (base c) t) (d_sub tls (get_delay B (base c)))
           (d_sub (stamp_ms e) (get_delay B (base c)))) c"
  have l: "?l = c\<lparr>weight := weight ?l\<rparr>" by (rule loop_changes_weight_only)
  have "Kplus ?l = Kplus c" "tau_plus ?l = tau_plus c"
    by (subst l, simp)+
  then show ?thesis by (simp add: send_def Let_def)
qed

lemma loop_append:
  "facilitation_loop tls d (xs @ ys) c = facilitation_loop tls d ys (facilitation_loop tls d xs c)"
  by (induction xs arbitrary: c) (simp_all add: Let_def)



section \<open>Facts about the dictionary and about sequences of calls\<close>

lemma get_status_lookup:
  "get_status B n c d0 names_weight = Some (DoubleDatum (weight c))"
  "get_status B n c d0 ''tau_plus'' = Some (DoubleDatum (tau_plus c))"
  "get_status B n c d0 ''lambda'' = Some (DoubleDatum (lambda c))"
  "get_status B n c d0 ''alpha'' = Some (DoubleDatum (alpha c))"
  "get_status B n c d0 ''mu_plus'' = Some (DoubleDatum (mu_plus c))"
  "get_status B n c d0 ''mu_minus'' = Some (DoubleDatum (mu_minus c))"
  "get_status B n c d0 ''Wmax'' = Some (DoubleDatum (Wmax c))"
  "get_status B n c d0 names_size_of = Some (LongDatum n)"
  by (simp_all add: get_status_def def_double_def def_long_def names_weight_def names_size_of_def)

lemma updateValue_double_exported:
  "updateValue_double (get_status B n c d0) names_weight x = Inr (weight c)"
  "updateValue_double (get_status B n c d0) ''tau_plus'' x = Inr (tau_plus c)"
  "updateValue_double (get_status B n c d0) ''lambda'' x = Inr (lambda c)"
  "updateValue_double (get_status B n c d0) ''alpha'' x = Inr (alpha c)"
  "updateValue_double (get_status B n c d0) ''mu_plus'' x = Inr (mu_plus c)"
  "updateValue_double (get_status B n c d0) ''mu_minus'' x = Inr (mu_minus c)"
  "updateValue_double (get_status B n c d0) ''Wmax'' x = Inr (Wmax c)"
  by (simp_all add: updateValue_double_def get_status_lookup)

lemma set_status_Kplus: "Kplus (fst (set_status B d cm c)) = Kplus c"
  by (simp add: set_status_def Let_def split: prod.splits option.splits sum.splits)

lemma set_weight_Kplus: "Kplus (set_weight w c) = Kplus c"
  by (simp add: set_weight_def)

lemma send_Kplus_regular:
  assumes "is_finite (Kplus c)" "0 \<le> val (Kplus c)" "regular_call c (Send e t tls)"
  shows "is_finite (Kplus (fst (send B e t tls c))) \<and> 1 \<le> val (Kplus (fst (send B e t tls c)))"
proof -
  have r: "is_finite (tau_plus c)" "val (tau_plus c) \<noteq> 0" "is_finite (stamp_ms e)" "is_finite tls"
    using assms(3) by auto
  let ?x = "d_div (d_sub tls (stamp_ms e)) (tau_plus c)"
  have "is_finite (d_sub tls (stamp_ms e))" using fin_sub r by simp
  then have "is_finite ?x" using fin_div r by simp
  then have e: "is_finite (d_exp ?x)" "0 < val (d_exp ?x)" using fin_exp[of ?x] by simp_all
  have m: "is_finite (d_mul (Kplus c) (d_exp ?x))" "0 \<le> val (d_mul (Kplus c) (d_exp ?x))"
    using fin_mul[of "Kplus c" "d_exp ?x"] assms(1,2) e by simp_all
  show ?thesis
    using fin_add[of "d_mul (Kplus c) (d_exp ?x)" "Finite 1"] m by (simp add: send_Kplus)
qed

lemma perform_Kplus_regular:
  assumes "is_finite (Kplus c)" "0 \<le> val (Kplus c)" "regular_call c x"
  shows "is_finite (Kplus (perform B c x)) \<and> 0 \<le> val (Kplus (perform B c x)) \<and>
    (is_send x \<longrightarrow> 1 \<le> val (Kplus (perform B c x)))"
proof (cases x)
  case (SetStatus d cm)
  then show ?thesis using assms by (simp add: set_status_Kplus)
next
  case (SetWeight w)
  then show ?thesis using assms by (simp add: set_weight_Kplus)
next
  case (Send e t tls)
  then show ?thesis using send_Kplus_regular[of c e t tls B] assms by simp
qed

lemma run_Cons: "run B c (x # xs) = run B (perform B c x) xs"
  by (simp add: run_def)

lemma run_Kplus_regular:
  "is_finite (Kplus c) \<Longrightarrow> 0 \<le> val (Kplus c) \<Longrightarrow> regular_calls B c (calls @ rest) \<Longrightarrow>
   is_finite (Kplus (run B c calls)) \<and> 0 \<le> val (Kplus (run B c calls)) \<and>
   (calls \<noteq> [] \<and> is_send (last calls) \<longrightarrow> 1 \<le> val (Kplus (run B c calls)))"
proof (induction calls arbitrary: c)
  case Nil
  then show ?case by (simp add: run_def)
next
  case (Cons x xs)
  have rc: "regular_call c x" and rest: "regular_calls B (perform B c x) (xs @ rest)"
    using Cons.prems(3) by simp_all
  have p: "is_finite (Kplus (perform B c x))" "0 \<le> val (Kplus (perform B c x))"
    "is_send x \<longrightarrow> 1 \<le> val (Kplus (perform B c x))"
    using perform_Kplus_regular[OF Cons.prems(1,2) rc, of B] by simp_all
  have ih: "is_finite (Kplus (run B (perform B c x) xs)) \<and>
    0 \<le> val (Kplus (run B (perform B c x) xs)) \<and>
    (xs \<noteq> [] \<and> is_send (last xs) \<longrightarrow> 1 \<le> val (Kplus (run B (perform B c x) xs)))"
    using Cons.IH[OF p(1,2) rest] .
  show ?case
  proof (cases "xs = []")
    case True
    then show ?thesis using p by (simp add: run_def)
  next
    case False
    then show ?thesis using ih by (simp add: run_Cons)
  qed
qed

text \<open>Whatever the calls, the trace of a connection that started from the default
  constructor is never below zero: it is a value from zero on, or NaN.\<close>

lemma perform_trace_not_neg: "not_neg (Kplus c) \<Longrightarrow> not_neg (Kplus (perform B c x))"
  by (cases x)
     (simp_all add: set_status_Kplus set_weight_Kplus send_Kplus not_neg_add_one not_neg_mul
        not_neg_exp)

lemma reachable_trace_not_neg: "not_neg (Kplus (run B (STDPConnection_default b) calls))"
proof -
  have "not_neg (Kplus c) \<Longrightarrow> not_neg (Kplus (run B c calls))" for c
    by (induction calls arbitrary: c) (simp_all add: run_def perform_trace_not_neg)
  moreover have "not_neg (Kplus (STDPConnection_default b))"
    by (simp add: STDPConnection_default_def not_neg_def d_lt_def)
  ultimately show ?thesis by blast
qed

lemma stamp_ms_spike_at [simp]: "stamp_ms (spike_at x) = x"
  by (simp add: spike_at_def)

text \<open>\<open>send\<close> keeps the weight between zero and \<open>Wmax\<close> whenever the trace it starts
  with is not negative.\<close>

lemma send_keeps_weight_in_range:
  assumes "valid_parameters c"
    and "weight_in_range c"
    and "not_neg (Kplus c)"
    and "not_neg (get_K_value (get_target B (base c) t) (d_sub (stamp_ms e) (get_delay B (base c))))"
  shows "weight_in_range (fst (send B e t t_lastspike c))"
proof -
  let ?d = "get_delay B (base c)"
  let ?win = "get_history (get_target B (base c) t) (d_sub t_lastspike ?d) (d_sub (stamp_ms e) ?d)"
  let ?k = "get_K_value (get_target B (base c) t) (d_sub (stamp_ms e) ?d)"
  let ?w1 = "weight (facilitation_loop t_lastspike ?d ?win c)"
  have P: "is_finite (Wmax c)" "0 < val (Wmax c)" "is_finite (lambda c)" "0 \<le> val (lambda c)"
    "is_finite (alpha c)" "0 \<le> val (alpha c)" "is_finite (mu_plus c)" "0 \<le> val (mu_plus c)"
    "is_finite (mu_minus c)" "0 \<le> val (mu_minus c)"
    using assms(1) by (simp_all add: valid_parameters_def)
  have w0: "is_finite (weight c) \<and> 0 \<le> val (weight c) \<and> val (weight c) \<le> val (Wmax c)"
    using assms(2) P(1) by (simp add: weight_in_range_def between_fin)
  have w1: "is_finite ?w1 \<and> 0 \<le> val ?w1 \<and> val ?w1 \<le> val (Wmax c)"
    unfolding loop_weight_fold
    using P(1-4) P(7,8) assms(3) w0 by (rule fold_facilitate_range)
  have "is_finite (depress c ?w1 ?k) \<and> 0 \<le> val (depress c ?w1 ?k) \<and>
        val (depress c ?w1 ?k) \<le> val (Wmax c)"
    using depress_range[of c ?w1 ?k] P w1 assms(4) by simp
  then show ?thesis
    using P(1) by (simp add: weight_in_range_def send_weight send_keeps_parameters between_fin)
qed

section \<open>The weight stays between zero and \<open>Wmax\<close>\<close>

text \<open>
  Claim C1. Take a connection in any state that calls of \<open>set_status\<close>, \<open>set_weight\<close>
  and \<open>send\<close> lead to from the default constructor, with valid parameters (real numbers
  with \<open>Wmax > 0\<close>, \<open>lambda > 0\<close>, \<open>alpha \<ge> 0\<close>, \<open>mu_plus \<ge> 0\<close>,
  \<open>mu_minus \<ge> 0\<close>) and a weight with \<open>0 \<le> weight \<le> Wmax\<close>, and a target whose
  trace at the queried time is not negative. Then after \<open>send\<close> the weight again
  satisfies \<open>0 \<le> weight \<le> Wmax\<close>, for the same \<open>Wmax\<close>. Nothing is asked of
  \<open>tau_plus\<close>, of the time stamps, of the delay or of the history window.
\<close>

theorem weight_stays_in_range:
  assumes "c = run B (STDPConnection_default b) calls"
    and "valid_parameters c"
    and "weight_in_range c"
    and "not_neg (get_K_value (get_target B (base c) t) (d_sub (stamp_ms e) (get_delay B (base c))))"
  shows "weight_in_range (fst (send B e t t_lastspike c))"
proof -
  have "not_neg (Kplus c)"
    unfolding assms(1) by (rule reachable_trace_not_neg)
  with assms(2,3) show ?thesis
    using assms(4) by (rule send_keeps_weight_in_range)
qed

theorem weight_stays_in_range_witness:
  "valid_parameters (run plain_base (STDPConnection_default (scenario_node, Finite 1)) [SetWeight (Finite 50)]) \<and>
   weight_in_range (run plain_base (STDPConnection_default (scenario_node, Finite 1)) [SetWeight (Finite 50)]) \<and>
   not_neg (get_K_value
     (get_target plain_base
        (base (run plain_base (STDPConnection_default (scenario_node, Finite 1)) [SetWeight (Finite 50)])) 0)
     (d_sub (stamp_ms (spike_at (Finite 30)))
        (get_delay plain_base
           (base (run plain_base (STDPConnection_default (scenario_node, Finite 1))
              [SetWeight (Finite 50)]))))) \<and>
   weight_in_range (fst (send plain_base (spike_at (Finite 30)) 0 (Finite 10)
     (run plain_base (STDPConnection_default (scenario_node, Finite 1)) [SetWeight (Finite 50)])))"
proof -
  let ?c = "run plain_base (STDPConnection_default (scenario_node, Finite 1)) [SetWeight (Finite 50)]"
  have c: "?c = (STDPConnection_default (scenario_node, Finite 1))\<lparr>weight := Finite 50\<rparr>"
    by (simp add: run_def set_weight_def)
  have h1: "valid_parameters ?c"
    unfolding c by (simp add: valid_parameters_def STDPConnection_default_def)
  have h2: "weight_in_range ?c"
    unfolding c by (simp add: weight_in_range_def STDPConnection_default_def arith_defs)
  have h3: "not_neg (get_K_value (get_target plain_base (base ?c) 0)
     (d_sub (stamp_ms (spike_at (Finite 30))) (get_delay plain_base (base ?c))))"
    unfolding c
    by (simp add: not_neg_def STDPConnection_default_def plain_base_def scenario_node_def
        archiving_node_def d_lt_def)
  show ?thesis
    using h1 h2 h3 weight_stays_in_range[OF refl h1 h2 h3, of "Finite 10"] by simp
qed

section \<open>The facilitation phase is a fold, followed by one depression\<close>

text \<open>
  Claim C2, as the source has it. The weight that \<open>send\<close> leaves behind is one
  depression step, with the target's trace at \<open>t_spike - d\<close>, applied to the result of
  a left fold of \<open>facilitate\<close> over those records of the history window whose computed
  \<open>minus_dt = t_lastspike - (timestamp + d)\<close> is not zero, in the order the window is
  handed over, each step starting from the weight the previous one produced and using
  \<open>k = Kplus * exp(minus_dt / tau_plus)\<close>.
\<close>

theorem send_is_fold_then_one_depression:
  "(let d = get_delay B (base c);
        target = get_target B (base c) t;
        window = get_history target (d_sub t_lastspike d) (d_sub (stamp_ms e) d);
        kminus = get_K_value target (d_sub (stamp_ms e) d)
    in weight (fst (send B e t t_lastspike c)) =
         depress c
           (foldl (\<lambda>w h. facilitate c w (kplus_at c t_lastspike d h)) (weight c)
              (filter (\<lambda>h. \<not> coincident t_lastspike d h) window))
           kminus)"
  by (simp add: send_weight loop_weight_fold)

theorem send_is_fold_then_one_depression_witness:
  "get_history (get_target plain_base (base boundary_connection) 0)
     (d_sub (Finite 10) (Finite 1)) (d_sub (Finite 30) (Finite 1)) = [\<lparr> hist_t = Finite 9, access_counter = 0 \<rparr>, \<lparr> hist_t = Finite 25, access_counter = 0 \<rparr>] \<and>
   coincident (Finite 10) (Finite 1) \<lparr> hist_t = Finite 9, access_counter = 0 \<rparr> \<and>
   \<not> coincident (Finite 10) (Finite 1) \<lparr> hist_t = Finite 25, access_counter = 0 \<rparr> \<and>
   weight (fst (send plain_base (spike_at (Finite 30)) 0 (Finite 10) boundary_connection)) =
     depress boundary_connection
       (facilitate boundary_connection (Finite 50)
          (kplus_at boundary_connection (Finite 10) (Finite 1) \<lparr> hist_t = Finite 25, access_counter = 0 \<rparr>))
       (Finite (1 / 5))"
proof -
  have b: "get_delay plain_base (base boundary_connection) = Finite 1"
    "stamp_ms (spike_at (Finite 30)) = Finite 30"
    "weight boundary_connection = Finite 50"
    by (simp_all add: boundary_connection_def plain_base_def STDPConnection_default_def)
  have w: "get_history (get_target plain_base (base boundary_connection) 0)
     (d_sub (Finite 10) (Finite 1)) (d_sub (Finite 30) (Finite 1)) = [\<lparr> hist_t = Finite 9, access_counter = 0 \<rparr>, \<lparr> hist_t = Finite 25, access_counter = 0 \<rparr>]"
    by (simp add: boundary_connection_def boundary_node_def plain_base_def
        STDPConnection_default_def arith_defs)
  have k: "get_K_value (get_target plain_base (base boundary_connection) 0)
     (d_sub (Finite 30) (Finite 1)) = Finite (1 / 5)"
    by (simp add: boundary_connection_def boundary_node_def plain_base_def
        STDPConnection_default_def)
  have co: "coincident (Finite 10) (Finite 1) \<lparr> hist_t = Finite 9, access_counter = 0 \<rparr>"
    by (simp add: coincident_def minus_dt_of_def arith_defs)
  have nc: "\<not> coincident (Finite 10) (Finite 1) \<lparr> hist_t = Finite 25, access_counter = 0 \<rparr>"
    by (simp add: coincident_def minus_dt_of_def arith_defs)
  show ?thesis
    using w k co nc
      send_is_fold_then_one_depression[of plain_base boundary_connection 0 "Finite 10"
        "spike_at (Finite 30)"]
    by (simp add: Let_def b)
qed

text \<open>The claim as stated, a fold over all records of the window, fails when the window
  holds a record whose \<open>minus_dt\<close> is zero: with weight 50, trace 1, the default
  parameters, \<open>t_lastspike = 10\<close>, delay 1 and the single record at 9, \<open>send\<close> skips
  the record and leaves the weight at 50, while the fold over the record facilitates
  once and gives a weight above 50.\<close>

theorem send_is_fold_counterexample:
  "get_history (get_target plain_base (base skipped_only_connection) 0)
     (d_sub (Finite 10) (get_delay plain_base (base skipped_only_connection)))
     (d_sub (stamp_ms (spike_at (Finite 30))) (get_delay plain_base (base skipped_only_connection))) =
     [\<lparr> hist_t = Finite 9, access_counter = 0 \<rparr>] \<and>
   weight (fst (send plain_base (spike_at (Finite 30)) 0 (Finite 10) skipped_only_connection)) =
     Finite 50 \<and>
   d_lt (Finite 50)
     (depress skipped_only_connection
        (foldl (\<lambda>w h. facilitate skipped_only_connection w
                  (kplus_at skipped_only_connection (Finite 10) (Finite 1) h))
           (weight skipped_only_connection) [\<lparr> hist_t = Finite 9, access_counter = 0 \<rparr>])
        (get_K_value (get_target plain_base (base skipped_only_connection) 0)
           (d_sub (stamp_ms (spike_at (Finite 30)))
              (get_delay plain_base (base skipped_only_connection)))))"
proof -
  have p: "Wmax skipped_only_connection = Finite 100"
    "lambda skipped_only_connection = Finite (1 / 100)"
    "alpha skipped_only_connection = Finite 1" "mu_plus skipped_only_connection = Finite 1"
    "mu_minus skipped_only_connection = Finite 1" "tau_plus skipped_only_connection = Finite 20"
    "Kplus skipped_only_connection = Finite 1" "weight skipped_only_connection = Finite 50"
    by (simp_all add: skipped_only_connection_def STDPConnection_default_def)
  have b: "get_delay plain_base (base skipped_only_connection) = Finite 1"
    by (simp add: skipped_only_connection_def plain_base_def STDPConnection_default_def)
  have w: "get_history (get_target plain_base (base skipped_only_connection) 0)
     (d_sub (Finite 10) (Finite 1)) (d_sub (Finite 30) (Finite 1)) = [\<lparr> hist_t = Finite 9, access_counter = 0 \<rparr>]"
    by (simp add: skipped_only_connection_def boundary_node_def plain_base_def
        STDPConnection_default_def arith_defs)
  have k: "get_K_value (get_target plain_base (base skipped_only_connection) 0)
     (d_sub (Finite 30) (Finite 1)) = Finite 0"
    by (simp add: skipped_only_connection_def boundary_node_def plain_base_def
        STDPConnection_default_def)
  have co: "coincident (Finite 10) (Finite 1) \<lparr> hist_t = Finite 9, access_counter = 0 \<rparr>"
    by (simp add: coincident_def minus_dt_of_def arith_defs)
  have l: "facilitation_loop (Finite 10) (Finite 1)
      [\<lparr> hist_t = Finite 9, access_counter = 0 \<rparr>] skipped_only_connection =
    skipped_only_connection"
    using co by (simp add: coincident_def minus_dt_of_def)
  have kp: "kplus_at skipped_only_connection (Finite 10) (Finite 1) \<lparr> hist_t = Finite 9, access_counter = 0 \<rparr> = Finite 1"
    by (simp add: kplus_at_def minus_dt_of_def p arith_defs)
  have d50: "depress skipped_only_connection (Finite 50) (Finite 0) = Finite 50"
    by (simp add: depress_def p d_pow_def pow_finite_def arith_defs Let_def)
  have f: "facilitate skipped_only_connection (Finite 50) (Finite 1) = Finite (101 / 2)"
    by (simp add: facilitate_def p d_pow_def pow_finite_def arith_defs Let_def)
  have d505: "depress skipped_only_connection (Finite (101 / 2)) (Finite 0) = Finite (101 / 2)"
    by (simp add: depress_def p d_pow_def pow_finite_def arith_defs Let_def)
  have s: "weight (fst (send plain_base (spike_at (Finite 30)) 0 (Finite 10) skipped_only_connection)) =
     Finite 50"
    by (simp only: send_weight b stamp_ms_spike_at w k l p d50)
  have c: "d_lt (Finite 50) (Finite (101 / 2))"
    by (simp add: d_lt_def)
  show ?thesis
    using s c by (simp add: b w k p kp f d505)
qed

section \<open>The potentiation rule\<close>

text \<open>
  Claim C3. For a real \<open>Wmax > 0\<close> and all arguments \<open>w\<close> and \<open>k\<close>, real or not,
  \<open>facilitate(w, k)\<close> is the rule of the spec: it computes
  \<open>nw = w/Wmax + lambda * (1 - w/Wmax)^mu_plus * k\<close>, the power being \<open>std::pow\<close>, and
  returns \<open>nw * Wmax\<close> when \<open>nw < 1.0\<close>, with the strict comparison, and \<open>Wmax\<close>
  otherwise, so also when \<open>nw\<close> is NaN. Whichever branch is taken, the result is at
  most \<open>Wmax\<close>.
\<close>

theorem facilitate_formula:
  assumes "is_finite (Wmax c)" "0 < val (Wmax c)"
  shows "facilitate c w k = facilitate_spec (Wmax c) (lambda c) (mu_plus c) w k \<and>
    d_le (facilitate c w k) (Wmax c)"
proof
  show "facilitate c w k = facilitate_spec (Wmax c) (lambda c) (mu_plus c) w k"
    by (simp add: facilitate_def facilitate_spec_def)
next
  define nw where "nw = d_add (d_div w (Wmax c))
     (d_mul (d_mul (lambda c) (d_pow (d_sub (Finite 1) (d_div w (Wmax c))) (mu_plus c))) k)"
  have fac: "facilitate c w k = (if d_lt nw (Finite 1) then d_mul nw (Wmax c) else Wmax c)"
    by (simp add: facilitate_def Let_def nw_def)
  have self: "d_le (Wmax c) (Wmax c)"
    using assms(1) by (simp add: le_fin)
  show "d_le (facilitate c w k) (Wmax c)"
  proof (cases "d_lt nw (Finite 1)")
    case False
    then show ?thesis using fac self by simp
  next
    case True
    then consider "nw = NegInf" | "is_finite nw" "val nw < 1"
      by (cases nw) (auto simp: d_lt_def)
    then have "d_le (d_mul nw (Wmax c)) (Wmax c)"
    proof cases
      case 1
      then show ?thesis
        using assms by (cases "Wmax c") (auto simp: d_mul_def d_le_def d_lt_def signed_inf_def)
    next
      case 2
      have m: "is_finite (d_mul nw (Wmax c))" "val (d_mul nw (Wmax c)) = val nw * val (Wmax c)"
        using fin_mul[of nw "Wmax c"] 2(1) assms(1) by simp_all
      have "val nw * val (Wmax c) \<le> 1 * val (Wmax c)"
        using 2(2) assms(2) by (intro mult_right_mono) simp_all
      then show ?thesis using m assms(1) by (simp add: le_fin)
    qed
    then show ?thesis using fac True by simp
  qed
qed

theorem facilitate_formula_witness:
  "is_finite (Wmax scenario_connection) \<and> 0 < val (Wmax scenario_connection) \<and>
   facilitate scenario_connection (Finite 50) (Finite 1) =
     facilitate_spec (Wmax scenario_connection) (lambda scenario_connection)
       (mu_plus scenario_connection) (Finite 50) (Finite 1) \<and>
   d_le (facilitate scenario_connection (Finite 50) (Finite 1)) (Wmax scenario_connection)"
proof -
  have h: "is_finite (Wmax scenario_connection)" "0 < val (Wmax scenario_connection)"
    by (simp_all add: scenario_connection_def STDPConnection_default_def)
  show ?thesis
    using h facilitate_formula[OF h, of "Finite 50" "Finite 1"] by blast
qed

section \<open>The depression rule\<close>

text \<open>
  Claim C4. For a real \<open>Wmax > 0\<close> and all arguments \<open>w\<close> and \<open>k\<close>, real or not,
  \<open>depress(w, k)\<close> is the rule of the spec: it computes
  \<open>nw = w/Wmax - alpha * lambda * (w/Wmax)^mu_minus * k\<close>, the power being \<open>std::pow\<close>,
  and returns \<open>nw * Wmax\<close> when \<open>nw > 0.0\<close>, with the strict comparison, and \<open>0.0\<close>
  otherwise, so also when \<open>nw\<close> is NaN. Whichever branch is taken, the result is at
  least zero.
\<close>

theorem depress_formula:
  assumes "is_finite (Wmax c)" "0 < val (Wmax c)"
  shows "depress c w k = depress_spec (Wmax c) (alpha c) (lambda c) (mu_minus c) w k \<and>
    d_le (Finite 0) (depress c w k)"
proof
  show "depress c w k = depress_spec (Wmax c) (alpha c) (lambda c) (mu_minus c) w k"
    by (simp add: depress_def depress_spec_def)
next
  define nw where "nw = d_sub (d_div w (Wmax c))
     (d_mul (d_mul (d_mul (alpha c) (lambda c)) (d_pow (d_div w (Wmax c)) (mu_minus c))) k)"
  have dep: "depress c w k = (if d_gt nw (Finite 0) then d_mul nw (Wmax c) else Finite 0)"
    by (simp add: depress_def Let_def nw_def)
  show "d_le (Finite 0) (depress c w k)"
  proof (cases "d_gt nw (Finite 0)")
    case False
    then show ?thesis using dep by (simp add: le_fin)
  next
    case True
    then consider "nw = PosInf" | "is_finite nw" "0 < val nw"
      by (cases nw) (auto simp: d_gt_def d_lt_def)
    then have "d_le (Finite 0) (d_mul nw (Wmax c))"
    proof cases
      case 1
      then show ?thesis
        using assms by (cases "Wmax c") (auto simp: d_mul_def d_le_def d_lt_def signed_inf_def)
    next
      case 2
      have m: "is_finite (d_mul nw (Wmax c))" "val (d_mul nw (Wmax c)) = val nw * val (Wmax c)"
        using fin_mul[of nw "Wmax c"] 2(1) assms(1) by simp_all
      have "0 \<le> val nw * val (Wmax c)"
        using 2(2) assms(2) by simp
      then show ?thesis using m by (simp add: le_fin)
    qed
    then show ?thesis using dep True by simp
  qed
qed

theorem depress_formula_witness:
  "is_finite (Wmax scenario_connection) \<and> 0 < val (Wmax scenario_connection) \<and>
   depress scenario_connection (Finite 50) (Finite 1) =
     depress_spec (Wmax scenario_connection) (alpha scenario_connection)
       (lambda scenario_connection) (mu_minus scenario_connection) (Finite 50) (Finite 1) \<and>
   d_le (Finite 0) (depress scenario_connection (Finite 50) (Finite 1))"
proof -
  have h: "is_finite (Wmax scenario_connection)" "0 < val (Wmax scenario_connection)"
    by (simp_all add: scenario_connection_def STDPConnection_default_def)
  show ?thesis
    using h depress_formula[OF h, of "Finite 50" "Finite 1"] by blast
qed

section \<open>A coincident record is consumed without facilitation\<close>

text \<open>
  Claim C5. A history record whose delay-shifted time stamp equals \<open>t_lastspike\<close>
  (\<open>minus_dt == 0\<close>) is passed over: the loop goes on with the records after it and
  with the connection it had, so the final state is the one the loop reaches on the
  window without that record, wherever in the window the record stands. The loop is a
  total function of the window, and its result is the fold that visits every remaining
  record once, in order. A delivery whose window holds such a record leaves the weight
  of the delivery whose window does not.
\<close>

theorem coincident_record_is_skipped:
  assumes "coincident t_lastspike d h"
  shows "facilitation_loop t_lastspike d (h # ys) c = facilitation_loop t_lastspike d ys c \<and>
    facilitation_loop t_lastspike d (xs @ h # ys) c = facilitation_loop t_lastspike d (xs @ ys) c \<and>
    weight (facilitation_loop t_lastspike d (xs @ h # ys) c) =
      foldl (\<lambda>w h. facilitate c w (kplus_at c t_lastspike d h)) (weight c)
        (filter (\<lambda>h. \<not> coincident t_lastspike d h) (xs @ ys)) \<and>
    (get_delay B (base c) = d \<and>
     get_history (get_target B (base c) t) (d_sub t_lastspike d) (d_sub (stamp_ms e) d) =
       xs @ h # ys \<longrightarrow>
     weight (fst (send B e t t_lastspike c)) =
       depress c (weight (facilitation_loop t_lastspike d (xs @ ys) c))
         (get_K_value (get_target B (base c) t) (d_sub (stamp_ms e) d)))"
proof -
  have one: "facilitation_loop t_lastspike d (h # ys) c' = facilitation_loop t_lastspike d ys c'" for c'
    using assms by (simp add: coincident_def minus_dt_of_def)
  have two: "facilitation_loop t_lastspike d (xs @ h # ys) c = facilitation_loop t_lastspike d (xs @ ys) c"
    by (simp only: loop_append one)
  have three: "weight (facilitation_loop t_lastspike d (xs @ h # ys) c) =
      foldl (\<lambda>w h. facilitate c w (kplus_at c t_lastspike d h)) (weight c)
        (filter (\<lambda>h. \<not> coincident t_lastspike d h) (xs @ ys))"
    unfolding two by (rule loop_weight_fold)
  have four: "weight (fst (send B e t t_lastspike c)) =
       depress c (weight (facilitation_loop t_lastspike d (xs @ ys) c))
         (get_K_value (get_target B (base c) t) (d_sub (stamp_ms e) d))"
    if "get_delay B (base c) = d"
      "get_history (get_target B (base c) t) (d_sub t_lastspike d) (d_sub (stamp_ms e) d) = xs @ h # ys"
    unfolding send_weight that two ..
  show ?thesis using one[of c] two three four by blast
qed

theorem coincident_record_is_skipped_witness:
  "coincident (Finite 10) (Finite 1) \<lparr> hist_t = Finite 9, access_counter = 0 \<rparr> \<and>
   get_delay plain_base (base boundary_connection) = Finite 1 \<and>
   get_history (get_target plain_base (base boundary_connection) 0)
     (d_sub (Finite 10) (Finite 1)) (d_sub (stamp_ms (spike_at (Finite 30))) (Finite 1)) =
     [\<lparr> hist_t = Finite 9, access_counter = 0 \<rparr>, \<lparr> hist_t = Finite 25, access_counter = 0 \<rparr>] \<and>
   facilitation_loop (Finite 10) (Finite 1)
     [\<lparr> hist_t = Finite 9, access_counter = 0 \<rparr>, \<lparr> hist_t = Finite 25, access_counter = 0 \<rparr>]
     boundary_connection =
   facilitation_loop (Finite 10) (Finite 1) [\<lparr> hist_t = Finite 25, access_counter = 0 \<rparr>]
     boundary_connection \<and>
   weight (fst (send plain_base (spike_at (Finite 30)) 0 (Finite 10) boundary_connection)) =
     depress boundary_connection
       (weight (facilitation_loop (Finite 10) (Finite 1)
          [\<lparr> hist_t = Finite 25, access_counter = 0 \<rparr>] boundary_connection))
       (get_K_value (get_target plain_base (base boundary_connection) 0)
          (d_sub (stamp_ms (spike_at (Finite 30))) (Finite 1)))"
proof -
  have h: "coincident (Finite 10) (Finite 1) \<lparr> hist_t = Finite 9, access_counter = 0 \<rparr>"
    by (simp add: coincident_def minus_dt_of_def arith_defs)
  have d: "get_delay plain_base (base boundary_connection) = Finite 1"
    by (simp add: boundary_connection_def plain_base_def STDPConnection_default_def)
  have w: "get_history (get_target plain_base (base boundary_connection) 0)
     (d_sub (Finite 10) (Finite 1)) (d_sub (stamp_ms (spike_at (Finite 30))) (Finite 1)) =
     [] @ \<lparr> hist_t = Finite 9, access_counter = 0 \<rparr> # [\<lparr> hist_t = Finite 25, access_counter = 0 \<rparr>]"
    by (simp add: boundary_connection_def boundary_node_def plain_base_def STDPConnection_default_def
        arith_defs)
  have "facilitation_loop (Finite 10) (Finite 1)
      ([] @ \<lparr> hist_t = Finite 9, access_counter = 0 \<rparr> # [\<lparr> hist_t = Finite 25, access_counter = 0 \<rparr>])
      boundary_connection =
    facilitation_loop (Finite 10) (Finite 1) ([] @ [\<lparr> hist_t = Finite 25, access_counter = 0 \<rparr>])
      boundary_connection \<and>
    weight (fst (send plain_base (spike_at (Finite 30)) 0 (Finite 10) boundary_connection)) =
     depress boundary_connection
       (weight (facilitation_loop (Finite 10) (Finite 1)
          ([] @ [\<lparr> hist_t = Finite 25, access_counter = 0 \<rparr>]) boundary_connection))
       (get_K_value (get_target plain_base (base boundary_connection) 0)
          (d_sub (stamp_ms (spike_at (Finite 30))) (Finite 1)))"
    using d w coincident_record_is_skipped[OF h, of "[\<lparr> hist_t = Finite 25, access_counter = 0 \<rparr>]"
        boundary_connection "[]" plain_base 0 "spike_at (Finite 30)"]
    by blast
  then show ?thesis using h d w by (simp only: append_Nil simp_thms)
qed

section \<open>Every delivery advances the trace and depresses once\<close>

text \<open>
  Claim C6. Every \<open>send\<close> ends with the trace set to
  \<open>Kplus * exp((t_lastspike - t_spike) / tau_plus) + 1.0\<close>, computed from the trace and
  the time constant it started with; and when the history window is empty, the weight it
  leaves behind is the one depression step applied to the weight it started with.
\<close>

theorem send_advances_trace_and_depresses:
  "Kplus (fst (send B e t t_lastspike c)) =
     d_add (d_mul (Kplus c) (d_exp (d_div (d_sub t_lastspike (stamp_ms e)) (tau_plus c)))) (Finite 1) \<and>
   (get_history (get_target B (base c) t) (d_sub t_lastspike (get_delay B (base c)))
        (d_sub (stamp_ms e) (get_delay B (base c))) = [] \<longrightarrow>
    weight (fst (send B e t t_lastspike c)) =
      depress c (weight c)
        (get_K_value (get_target B (base c) t) (d_sub (stamp_ms e) (get_delay B (base c)))))"
  by (simp add: send_Kplus send_weight)

theorem send_advances_trace_and_depresses_witness:
  "get_history (get_target plain_base (base first_delivery) 0)
      (d_sub (Finite 0) (get_delay plain_base (base first_delivery)))
      (d_sub (stamp_ms (spike_at (Finite 10))) (get_delay plain_base (base first_delivery))) = [] \<and>
   weight (fst (send plain_base (spike_at (Finite 10)) 0 (Finite 0) first_delivery)) = Finite 50 \<and>
   Kplus (fst (send plain_base (spike_at (Finite 10)) 0 (Finite 0) first_delivery)) = Finite 1"
proof -
  have b: "get_delay plain_base (base first_delivery) = Finite 1"
    "get_target plain_base (base first_delivery) 0 = archiving_node [] (Finite 0)"
    "stamp_ms (spike_at (Finite 10)) = Finite 10"
    "weight first_delivery = Finite 50" "Kplus first_delivery = Finite 0"
    "tau_plus first_delivery = Finite 20"
    by (simp_all add: first_delivery_def plain_base_def spike_at_def STDPConnection_default_def)
  have h: "get_history (archiving_node [] (Finite 0)) (d_sub (Finite 0) (Finite 1))
      (d_sub (Finite 10) (Finite 1)) = []"
    by (simp add: archiving_node_def history_window_def)
  have k: "get_K_value (archiving_node [] (Finite 0)) (d_sub (Finite 10) (Finite 1)) = Finite 0"
    by (simp add: archiving_node_def)
  have d: "depress first_delivery (Finite 50) (Finite 0) = Finite 50"
    by (simp add: depress_def first_delivery_def STDPConnection_default_def d_pow_def pow_finite_def arith_defs Let_def)
  have e: "d_add (d_mul (Finite 0) (d_exp (d_div (d_sub (Finite 0) (Finite 10)) (Finite 20)))) (Finite 1) = Finite 1"
    by (simp add: arith_defs)
  show ?thesis
    using send_advances_trace_and_depresses[of plain_base "spike_at (Finite 10)" 0 "Finite 0" first_delivery]
    by (simp add: b h k d e)
qed

section \<open>Export and import\<close>

text \<open>
  Claim C7. Exporting a connection with \<open>get_status\<close>, into any dictionary, and importing
  the result into the same connection with \<open>set_status\<close> leaves the weight, \<open>tau_plus\<close>,
  \<open>lambda\<close>, \<open>alpha\<close>, \<open>mu_plus\<close>, \<open>mu_minus\<close>, \<open>Wmax\<close> and the trace as they
  were: the connection that results differs from the original at most in the state of
  the base class, and the only exception that can end the import is one of the base
  class.
\<close>

theorem export_then_import_is_identity:
  "set_status B (get_status B n c d0) cm c =
     (c\<lparr>base := fst (base_set_status B (get_status B n c d0) cm (base c))\<rparr>,
      snd (base_set_status B (get_status B n c d0) cm (base c))) \<and>
   weight (fst (set_status B (get_status B n c d0) cm c)) = weight c \<and>
   tau_plus (fst (set_status B (get_status B n c d0) cm c)) = tau_plus c \<and>
   lambda (fst (set_status B (get_status B n c d0) cm c)) = lambda c \<and>
   alpha (fst (set_status B (get_status B n c d0) cm c)) = alpha c \<and>
   mu_plus (fst (set_status B (get_status B n c d0) cm c)) = mu_plus c \<and>
   mu_minus (fst (set_status B (get_status B n c d0) cm c)) = mu_minus c \<and>
   Wmax (fst (set_status B (get_status B n c d0) cm c)) = Wmax c \<and>
   Kplus (fst (set_status B (get_status B n c d0) cm c)) = Kplus c"
proof -
  let ?d = "get_status B n c d0"
  obtain b ex where r: "base_set_status B ?d cm (base c) = (b, ex)"
    by (cases "base_set_status B ?d cm (base c)")
  have "set_status B ?d cm c = (c\<lparr>base := b\<rparr>, ex)"
  proof (cases ex)
    case (Some x)
    then show ?thesis using r by (simp add: set_status_def)
  next
    case None
    then show ?thesis
      using r
      by (simp add: set_status_def updateValue_double_exported)
  qed
  then show ?thesis by (simp add: r)
qed

text \<open>
  Claim C8, as the source has it. \<open>get_status\<close> adds to what the base class exports the
  current weight, the six parameters \<open>tau_plus\<close>, \<open>lambda\<close>, \<open>alpha\<close>, \<open>mu_plus\<close>,
  \<open>mu_minus\<close> and \<open>Wmax\<close>, and the field \<open>size_of\<close>; it does not export the trace,
  on which the result does not depend. It is a \<open>const\<close> member and has no connection
  to change.
\<close>

theorem export_reports_weight_and_parameters:
  "get_status B n c d =
     (base_get_status B (base c) d)
       (names_weight \<mapsto> DoubleDatum (weight c),
        ''tau_plus'' \<mapsto> DoubleDatum (tau_plus c),
        ''lambda'' \<mapsto> DoubleDatum (lambda c),
        ''alpha'' \<mapsto> DoubleDatum (alpha c),
        ''mu_plus'' \<mapsto> DoubleDatum (mu_plus c),
        ''mu_minus'' \<mapsto> DoubleDatum (mu_minus c),
        ''Wmax'' \<mapsto> DoubleDatum (Wmax c),
        names_size_of \<mapsto> LongDatum n) \<and>
   get_status B n (c\<lparr>Kplus := k\<rparr>) d = get_status B n c d"
  by (simp add: get_status_def def_double_def def_long_def)

text \<open>The claim as stated, that the export returns the current trace, fails: two
  connections that differ in the trace alone export the same dictionary.\<close>

theorem export_omits_trace_counterexample:
  "get_status plain_base 72 (scenario_connection\<lparr>Kplus := Finite 1\<rparr>) Map.empty =
   get_status plain_base 72 (scenario_connection\<lparr>Kplus := Finite 2\<rparr>) Map.empty \<and>
   Kplus (scenario_connection\<lparr>Kplus := Finite 1\<rparr>) \<noteq> Kplus (scenario_connection\<lparr>Kplus := Finite 2\<rparr>)"
  by (simp add: get_status_def def_double_def def_long_def)

section \<open>A zero trace argument\<close>




section \<open>The trace over sequences of calls\<close>

text \<open>
  Claim C10, as the source has it. Start from the default constructor and make any
  sequence of \<open>set_status\<close>, \<open>set_weight\<close> and \<open>send\<close> calls in which every \<open>send\<close>
  finds a time constant \<open>tau_plus\<close> that is a real number above zero and is given real
  time stamps with \<open>t_lastspike \<le> t_spike\<close>. Then at every point of the sequence the
  trace is at least 0, right after a \<open>send\<close> it is at least 1, and neither
  \<open>set_status\<close> nor \<open>set_weight\<close> changes it.
\<close>

theorem trace_invariant_of_regular_calls:
  assumes "regular_calls B (STDPConnection_default b) (calls @ rest)"
  shows "d_ge (Kplus (run B (STDPConnection_default b) calls)) (Finite 0) \<and>
    (calls \<noteq> [] \<and> is_send (last calls) \<longrightarrow>
       d_ge (Kplus (run B (STDPConnection_default b) calls)) (Finite 1)) \<and>
    (\<forall>d cm c. Kplus (perform B c (SetStatus d cm)) = Kplus c) \<and>
    (\<forall>w c. Kplus (perform B c (SetWeight w)) = Kplus c)"
proof -
  have "is_finite (Kplus (STDPConnection_default b))" "0 \<le> val (Kplus (STDPConnection_default b))"
    by (simp_all add: STDPConnection_default_def)
  then have k: "is_finite (Kplus (run B (STDPConnection_default b) calls))"
    "0 \<le> val (Kplus (run B (STDPConnection_default b) calls))"
    "calls \<noteq> [] \<and> is_send (last calls) \<longrightarrow> 1 \<le> val (Kplus (run B (STDPConnection_default b) calls))"
    using run_Kplus_regular[OF _ _ assms] by simp_all
  show ?thesis
    using k le_fin[of "Finite 0" "Kplus (run B (STDPConnection_default b) calls)"]
      le_fin[of "Finite 1" "Kplus (run B (STDPConnection_default b) calls)"]
    by (simp add: d_ge_def set_status_Kplus set_weight_Kplus)
qed

theorem trace_invariant_of_regular_calls_witness:
  "regular_calls plain_base (STDPConnection_default quiet_base)
     ([SetStatus (Map.empty(''lambda'' \<mapsto> DoubleDatum (Finite (1 / 50)))) (),
       SetWeight (Finite 50),
       Send (spike_at (Finite 10)) 0 (Finite 0)] @ []) \<and>
   [SetStatus (Map.empty(''lambda'' \<mapsto> DoubleDatum (Finite (1 / 50)))) (),
    SetWeight (Finite 50),
    Send (spike_at (Finite 10)) 0 (Finite 0)] \<noteq> [] \<and>
   is_send (last [SetStatus (Map.empty(''lambda'' \<mapsto> DoubleDatum (Finite (1 / 50)))) (),
    SetWeight (Finite 50),
    Send (spike_at (Finite 10)) 0 (Finite 0)]) \<and>
   d_ge (Kplus (run plain_base (STDPConnection_default quiet_base)
     [SetStatus (Map.empty(''lambda'' \<mapsto> DoubleDatum (Finite (1 / 50)))) (),
      SetWeight (Finite 50),
      Send (spike_at (Finite 10)) 0 (Finite 0)])) (Finite 1)"
proof -
  have h: "regular_calls plain_base (STDPConnection_default quiet_base)
     ([SetStatus (Map.empty(''lambda'' \<mapsto> DoubleDatum (Finite (1 / 50)))) (),
       SetWeight (Finite 50),
       Send (spike_at (Finite 10)) 0 (Finite 0)] @ [])"
    by (simp add: set_status_def set_weight_def updateValue_double_def plain_base_def
        names_weight_def STDPConnection_default_def spike_at_def)
  show ?thesis
    using h trace_invariant_of_regular_calls[OF h] by simp
qed

text \<open>The claim as stated, for any sequence, fails once \<open>set_status\<close> has set
  \<open>tau_plus\<close> to zero: a \<open>send\<close> whose time stamp equals \<open>t_lastspike\<close> then divides
  zero by zero, and the trace is NaN, which is neither at least 1 nor at least 0.\<close>

theorem trace_invariant_counterexample:
  "Kplus (run plain_base (STDPConnection_default quiet_base)
     [SetStatus (Map.empty(''tau_plus'' \<mapsto> DoubleDatum (Finite 0))) (),
      Send (spike_at (Finite 1)) 0 (Finite 0),
      Send (spike_at (Finite 1)) 0 (Finite 1)]) = NaN \<and>
   \<not> d_ge (Kplus (run plain_base (STDPConnection_default quiet_base)
     [SetStatus (Map.empty(''tau_plus'' \<mapsto> DoubleDatum (Finite 0))) (),
      Send (spike_at (Finite 1)) 0 (Finite 0),
      Send (spike_at (Finite 1)) 0 (Finite 1)])) (Finite 1) \<and>
   \<not> d_ge (Kplus (run plain_base (STDPConnection_default quiet_base)
     [SetStatus (Map.empty(''tau_plus'' \<mapsto> DoubleDatum (Finite 0))) (),
      Send (spike_at (Finite 1)) 0 (Finite 0),
      Send (spike_at (Finite 1)) 0 (Finite 1)])) (Finite 0)"
proof -
  define c1 where "c1 = fst (set_status plain_base (Map.empty(''tau_plus'' \<mapsto> DoubleDatum (Finite 0))) ()
    (STDPConnection_default quiet_base))"
  define c2 where "c2 = fst (send plain_base (spike_at (Finite 1)) 0 (Finite 0) c1)"
  define c3 where "c3 = fst (send plain_base (spike_at (Finite 1)) 0 (Finite 1) c2)"
  have k1: "tau_plus c1 = Finite 0" "Kplus c1 = Finite 0"
    by (simp_all add: c1_def set_status_def updateValue_double_def plain_base_def names_weight_def
        STDPConnection_default_def)
  have e1: "d_add (d_mul (Finite 0) (d_exp (d_div (d_sub (Finite 0) (Finite 1)) (Finite 0))))
      (Finite 1) = Finite 1"
    by (simp add: arith_defs)
  have e2: "d_add (d_mul (Finite 1) (d_exp (d_div (d_sub (Finite 1) (Finite 1)) (Finite 0))))
      (Finite 1) = NaN"
    by (simp add: arith_defs)
  have k2: "tau_plus c2 = Finite 0" "Kplus c2 = Finite 1"
    unfolding c2_def by (simp_all add: send_keeps_parameters send_Kplus k1 e1)
  have k3: "Kplus c3 = NaN"
    unfolding c3_def by (simp add: send_Kplus k2 e2)
  have "run plain_base (STDPConnection_default quiet_base)
     [SetStatus (Map.empty(''tau_plus'' \<mapsto> DoubleDatum (Finite 0))) (),
      Send (spike_at (Finite 1)) 0 (Finite 0),
      Send (spike_at (Finite 1)) 0 (Finite 1)] = c3"
    by (simp add: run_def c1_def c2_def c3_def)
  then show ?thesis by (simp add: k3 arith_defs)
qed

end
